theory Spec2Isabelle
  imports Main "HOL-Library.Sublist"
begin

section \<open>The voice translator's session controller (src/App.tsx)\<close>

text \<open>
  The component \<open>App\<close> keeps six React state cells and five refs, and drives them from
  event handlers: \<open>startListening\<close>, \<open>stopListening\<close>, \<open>handleToggleRecording\<close>, the
  four callbacks handed to \<open>live.connect\<close> (\<open>onopen\<close>, \<open>onmessage\<close>, \<open>onerror\<close>,
  \<open>onclose\<close>), the continuation of \<open>translateText\<close>, and the cleanup of the effect.
  Each handler is embedded as a function from the state before it runs to the state
  after it. A \<open>setX(v)\<close> is an assignment to the cell; a \<open>setX(prev => f prev)\<close>
  is the assignment of \<open>f\<close> applied to the cell's present value; assignments take
  effect in program order.

  A handler is a JavaScript closure: the free variables \<open>status\<close>, \<open>currentTurn\<close>,
  \<open>sourceLanguage\<close> and \<open>targetLanguage\<close> in its body are the values of the render in
  which the handler was created, not the present values of the cells. The record
  \<open>render\<close> holds these captured values and every handler that reads one of them
  takes a \<open>render\<close> as an argument. Refs (\<open>xRef.current\<close>) are shared mutable cells and
  are always read from the present state.

  The assignments one handler makes are batched: React renders once after the handler
  has returned, commits that render, and runs the effect of lines 139-145 when one of
  its dependencies \<open>[status, stopListening]\<close> has changed, beginning with the cleanup
  the previous render installed. \<open>stopListening\<close> is a \<open>useCallback\<close> over
  \<open>[currentTurn]\<close>, so it is a new function exactly when the \<open>currentTurn\<close> cell holds
  another object. \<open>startListening\<close> is an \<open>async\<close> function: it runs up to
  \<open>await getUserMedia\<close> inside the click, and the rest runs as a step of its own when
  the promise settles.
\<close>

subsection \<open>Data\<close>

text \<open>
  Modelled from the spec: the type \<open>TranscriptionTurn\<close>, which App.tsx imports from
  \<open>./types\<close> and which is not among the sources. Section 3 of the spec gives a turn
  the fields \<open>id\<close>, \<open>original\<close>, \<open>translated\<close> and \<open>isFinal\<close>; they are the fields
  App.tsx reads and writes. An id is a reading of \<open>Date.now()\<close>.
\<close>

record TranscriptionTurn =
  id_turn :: nat
  original :: string
  translated :: string
  isFinal :: bool

datatype status = Idle | Connecting | Listening | Error

text \<open>
  The values of one render. \<open>r_turnObject\<close> identifies the object in the
  \<open>currentTurn\<close> cell (React compares dependencies with \<open>Object.is\<close>).
\<close>

record render =
  r_status :: status
  r_currentTurn :: "TranscriptionTurn option"
  r_turnObject :: nat
  r_sourceLanguage :: string
  r_targetLanguage :: string

text \<open>
  A call of \<open>translateText\<close> either returns at once (the promise is already resolved
  with that string) or is suspended at \<open>await generateContent\<close> with the prompt it sent.
\<close>

datatype translate_task = Resolved string | Awaiting string

datatype remote_outcome = Resolves string | Rejects

text \<open>A thrown value: an \<open>Error\<close> object with its message, or something else.\<close>

datatype thrown = ErrorObject string | OtherValue

text \<open>
  What the environment does during one run of \<open>startListening\<close>: whether
  \<open>process.env.API_KEY\<close> is set, and for \<open>getUserMedia\<close>, \<open>new AudioContext\<close> and
  \<open>live.connect\<close> whether the call succeeds (\<open>None\<close>) or throws (\<open>Some e\<close>).
\<close>

record start_env =
  API_KEY :: bool
  getUserMedia :: "thrown option"
  newAudioContext :: "thrown option"
  liveConnect :: "thrown option"

record LiveServerMessage =
  inputTranscription :: "string option"
  turnComplete :: bool

text \<open>
  The state: the React cells, the refs (a ref holds the handle of the object it points
  to), and the part of the world the handlers act on. Handles are drawn from
  \<open>nextHandle\<close>. \<open>liveTracks\<close> are the microphone streams whose tracks have not been
  stopped, \<open>openContexts\<close> the audio contexts not closed, \<open>connectedProcessors\<close> the
  script processors not disconnected, \<open>openSessions\<close> the live connections for which
  no \<open>close()\<close> has been chained. \<open>callbacks\<close> maps a connection to the render its four
  callbacks closed over. \<open>requests\<close> are the prompts sent to \<open>generateContent\<close>, and
  \<open>pending\<close> the calls of \<open>translateText\<close> whose \<open>.then\<close> has not run yet, each with
  the id of the turn it will write to. \<open>turnObject\<close> counts the objects written to the
  \<open>currentTurn\<close> cell, \<open>committed\<close> is the render React committed last (its handlers are
  on the page and its effect cleanup is installed), and \<open>suspended\<close> holds the runs of
  \<open>startListening\<close> that wait at \<open>await getUserMedia\<close>, each with the render it closed
  over.
\<close>

record app =
  status :: status
  sourceLanguage :: string
  targetLanguage :: string
  history :: "TranscriptionTurn list"
  currentTurn :: "TranscriptionTurn option"
  turnObject :: nat
  errorMessage :: string
  sessionPromiseRef :: "nat option"
  audioContextRef :: "nat option"
  processorRef :: "nat option"
  micStreamRef :: "nat option"
  aiRef :: bool
  nextHandle :: nat
  liveTracks :: "nat list"
  openContexts :: "nat list"
  connectedProcessors :: "nat list"
  openSessions :: "nat list"
  callbacks :: "(nat \<times> render) list"
  requests :: "string list"
  pending :: "(nat \<times> translate_task) list"
  committed :: render
  suspended :: "render list"

definition initial :: app where
  "initial = \<lparr> status = Idle, sourceLanguage = ''es'', targetLanguage = ''en'',
     history = [], currentTurn = None, turnObject = 0, errorMessage = [],
     sessionPromiseRef = None, audioContextRef = None, processorRef = None,
     micStreamRef = None, aiRef = False,
     nextHandle = 0, liveTracks = [], openContexts = [], connectedProcessors = [],
     openSessions = [], callbacks = [], requests = [], pending = [],
     committed = \<lparr> r_status = Idle, r_currentTurn = None, r_turnObject = 0,
                   r_sourceLanguage = ''es'', r_targetLanguage = ''en'' \<rparr>,
     suspended = [] \<rparr>"

definition render_of :: "app \<Rightarrow> render" where
  "render_of s = \<lparr> r_status = status s, r_currentTurn = currentTurn s,
     r_turnObject = turnObject s,
     r_sourceLanguage = sourceLanguage s, r_targetLanguage = targetLanguage s \<rparr>"

subsection \<open>stopListening (lines 120-136) and the effect cleanup (lines 139-145)\<close>

definition release :: "nat option \<Rightarrow> nat list \<Rightarrow> nat list" where
  "release ref live = (case ref of None \<Rightarrow> live | Some h \<Rightarrow> removeAll h live)"

text \<open>
  \<open>ct\<close> is the \<open>currentTurn\<close> the closure captured. The four optional calls act on
  what the refs point to; \<open>session.close()\<close> is chained on the session promise and is
  counted as done.
\<close>

definition stopListening :: "TranscriptionTurn option \<Rightarrow> app \<Rightarrow> app" where
  "stopListening ct s =
     s\<lparr> liveTracks := release (micStreamRef s) (liveTracks s),
        connectedProcessors := release (processorRef s) (connectedProcessors s),
        openContexts := release (audioContextRef s) (openContexts s),
        openSessions := release (sessionPromiseRef s) (openSessions s),
        micStreamRef := None,
        processorRef := None,
        audioContextRef := None,
        sessionPromiseRef := None,
        status := Idle,
        history := (case ct of
                      None \<Rightarrow> history s
                    | Some t \<Rightarrow> if original t \<noteq> [] then history s @ [t\<lparr>isFinal := True\<rparr>]
                               else history s),
        currentTurn := None \<rparr>"

text \<open>
  The cleanup that the effect of lines 139-145 returns, for the render \<open>r\<close> it closed
  over. The comment above the effect says it is there for the unmount; with the
  dependencies \<open>[status, stopListening]\<close> React also runs it each time one of the two
  has changed.
\<close>

definition effect_cleanup :: "render \<Rightarrow> app \<Rightarrow> app" where
  "effect_cleanup r s =
     (if r_status r = Listening \<or> r_status r = Connecting
      then stopListening (r_currentTurn r) s else s)"

subsection \<open>Render and commit\<close>

text \<open>
  \<open>same_stopListening c r\<close>: the renders \<open>c\<close> and \<open>r\<close> hold the same \<open>stopListening\<close>,
  that is, the same \<open>currentTurn\<close> by \<open>Object.is\<close> (both \<open>null\<close>, or the same object).
  \<open>deps_changed\<close> compares the dependency array \<open>[status, stopListening]\<close> of the effect.
\<close>

definition same_stopListening :: "render \<Rightarrow> render \<Rightarrow> bool" where
  "same_stopListening c r =
     (case r_currentTurn c of
        None \<Rightarrow> r_currentTurn r = None
      | Some t \<Rightarrow> (case r_currentTurn r of
                    None \<Rightarrow> False
                  | Some t' \<Rightarrow> r_turnObject c = r_turnObject r))"

definition deps_changed :: "render \<Rightarrow> render \<Rightarrow> bool" where
  "deps_changed c r = (if r_status c = r_status r then \<not> same_stopListening c r else True)"

text \<open>
  One render and its commit: when the dependencies changed, the cleanup installed by
  the committed render runs (it may assign to the cells), and the new render becomes the
  committed one. Assignments made by the cleanup cause another render; three rounds
  always end in a render whose commit changes nothing more (lemma \<open>commit_stable\<close>).
\<close>

definition commit1 :: "app \<Rightarrow> app" where
  "commit1 s =
     (if deps_changed (committed s) (render_of s) then effect_cleanup (committed s) s else s)
       \<lparr> committed := render_of s \<rparr>"

definition commit :: "app \<Rightarrow> app" where
  "commit s = commit1 (commit1 (commit1 s))"

subsection \<open>translateText (lines 147-161)\<close>

text \<open>
  \<open>LANGUAGES\<close> is imported from \<open>./constants\<close>, which is not among the sources; it is
  a parameter here, a list of (code, name) pairs.
\<close>

definition langName :: "(string \<times> string) list \<Rightarrow> string \<Rightarrow> string \<Rightarrow> string" where
  "langName LANGUAGES code dflt =
     (case find (\<lambda>l. fst l = code) LANGUAGES of
        None \<Rightarrow> dflt
      | Some l \<Rightarrow> if snd l = [] then dflt else snd l)"

definition translateText ::
  "(string \<times> string) list \<Rightarrow> bool \<Rightarrow> string \<Rightarrow> string \<Rightarrow> string \<Rightarrow> translate_task" where
  "translateText LANGUAGES ai text sourceLang targetLang =
     (if text = [] then Resolved []
      else if ai then
        Awaiting (''Translate the following text from ''
                  @ langName LANGUAGES sourceLang ''the source language''
                  @ '' to '' @ langName LANGUAGES targetLang ''the target language''
                  @ '': '' @ [CHR 0x22] @ text @ [CHR 0x22])
      else Resolved [])"

text \<open>The rest of \<open>translateText\<close> after the \<open>await\<close>: its value, or the \<open>catch\<close>.\<close>

fun settle :: "translate_task \<Rightarrow> remote_outcome \<Rightarrow> string" where
  "settle (Resolved v) _ = v"
| "settle (Awaiting p) (Resolves t) = t"
| "settle (Awaiting p) Rejects = ''[Translation failed]''"

fun sent :: "translate_task \<Rightarrow> string list" where
  "sent (Resolved v) = []"
| "sent (Awaiting p) = [p]"

text \<open>The \<open>.then\<close> callback of lines 216-219, for the turn id it closed over.\<close>

definition translation_then :: "nat \<Rightarrow> string \<Rightarrow> app \<Rightarrow> app" where
  "translation_then fid translation s =
     s\<lparr> history := map (\<lambda>h. if id_turn h = fid then h\<lparr>translated := translation\<rparr> else h)
                       (history s) \<rparr>"

subsection \<open>startListening (lines 163-246) and its callbacks\<close>

fun message_of :: "thrown \<Rightarrow> string" where
  "message_of (ErrorObject m) = m"
| "message_of OtherValue = ''An unknown error occurred.''"

text \<open>The \<open>catch\<close> block of lines 240-245.\<close>

definition start_catch :: "thrown \<Rightarrow> app \<Rightarrow> app" where
  "start_catch e s =
     s\<lparr> errorMessage := ''Failed to start: '' @ message_of e, status := Error \<rparr>"

text \<open>The four assignments before the \<open>try\<close> (lines 164-167).\<close>

definition start_reset :: "app \<Rightarrow> app" where
  "start_reset s = s\<lparr> status := Connecting, errorMessage := [], currentTurn := None, history := [] \<rparr>"

text \<open>
  The \<open>try\<close> from the point where \<open>await getUserMedia\<close> settles (lines 175-239), with
  its \<open>catch\<close>. \<open>r\<close> is the render whose values the callbacks object closes over.
\<close>

definition start_after_await :: "render \<Rightarrow> start_env \<Rightarrow> app \<Rightarrow> app" where
  "start_after_await r env s1 =
     (case getUserMedia env of
        Some e \<Rightarrow> start_catch e s1
      | None \<Rightarrow>
         (let m = nextHandle s1;
              s2 = s1\<lparr> micStreamRef := Some m, liveTracks := m # liveTracks s1,
                       nextHandle := Suc m \<rparr> in
          case newAudioContext env of
            Some e \<Rightarrow> start_catch e s2
          | None \<Rightarrow>
             (let c = nextHandle s2;
                  s3 = s2\<lparr> audioContextRef := Some c, openContexts := c # openContexts s2,
                           nextHandle := Suc c \<rparr> in
              case liveConnect env of
                Some e \<Rightarrow> start_catch e s3
              | None \<Rightarrow>
                 (let k = nextHandle s3 in
                  s3\<lparr> sessionPromiseRef := Some k, openSessions := k # openSessions s3,
                      callbacks := (k, r) # callbacks s3, nextHandle := Suc k \<rparr>))))"

text \<open>The whole \<open>try\<close> (lines 170-239) with its \<open>catch\<close>, when nothing runs in between.\<close>

definition start_try :: "render \<Rightarrow> start_env \<Rightarrow> app \<Rightarrow> app" where
  "start_try r env s =
     (if API_KEY env then start_after_await r env (s\<lparr> aiRef := True \<rparr>)
      else start_catch (ErrorObject ''API_KEY environment variable not set.'') s)"

definition startListening :: "render \<Rightarrow> start_env \<Rightarrow> app \<Rightarrow> app" where
  "startListening r env s = start_try r env (start_reset s)"

text \<open>
  What a call of \<open>startListening\<close> does before it returns to its caller: lines 164-175
  up to the \<open>await\<close>, where the run is suspended, or up to the \<open>catch\<close> when the key is
  missing.
\<close>

definition start_until_await :: "render \<Rightarrow> start_env \<Rightarrow> app \<Rightarrow> app" where
  "start_until_await r env s =
     (if API_KEY env
      then (start_reset s)\<lparr> aiRef := True, suspended := suspended s @ [r] \<rparr>
      else start_catch (ErrorObject ''API_KEY environment variable not set.'') (start_reset s))"

text \<open>
  \<open>onopen\<close> (lines 185-199). With either ref empty the first statement throws and
  nothing is assigned.
\<close>

definition onopen :: "nat \<Rightarrow> app \<Rightarrow> app" where
  "onopen k s =
     (case map_of (callbacks s) k of
        None \<Rightarrow> s
      | Some r \<Rightarrow>
         (case audioContextRef s of
            None \<Rightarrow> s
          | Some c \<Rightarrow>
             (case micStreamRef s of
                None \<Rightarrow> s
              | Some m \<Rightarrow>
                 (let p = nextHandle s in
                  s\<lparr> processorRef := Some p, connectedProcessors := p # connectedProcessors s,
                     nextHandle := Suc p, status := Listening \<rparr>))))"

text \<open>
  The updater of lines 203-208; \<open>now\<close> is the value \<open>Date.now()\<close> returns when the
  updater runs.
\<close>

definition fragment_update :: "nat \<Rightarrow> string \<Rightarrow> TranscriptionTurn option \<Rightarrow> TranscriptionTurn" where
  "fragment_update now text prev =
     \<lparr> id_turn = (case prev of None \<Rightarrow> now | Some p \<Rightarrow> id_turn p),
       original = (case prev of None \<Rightarrow> [] | Some p \<Rightarrow> original p) @ text,
       translated = (case prev of None \<Rightarrow> [] | Some p \<Rightarrow> translated p),
       isFinal = False \<rparr>"

text \<open>The updater of lines 212-223, with the effects it performs.\<close>

definition turnComplete_update :: "(string \<times> string) list \<Rightarrow> render \<Rightarrow> app \<Rightarrow> app" where
  "turnComplete_update LANGUAGES r s =
     (case currentTurn s of
        None \<Rightarrow> s\<lparr> currentTurn := None \<rparr>
      | Some prevTurn \<Rightarrow>
         if original prevTurn \<noteq> [] then
           (let finalTurn = prevTurn\<lparr> isFinal := True \<rparr>;
                task = translateText LANGUAGES (aiRef s) (original finalTurn)
                         (r_sourceLanguage r) (r_targetLanguage r) in
            s\<lparr> history := history s @ [finalTurn],
               requests := requests s @ sent task,
               pending := pending s @ [(id_turn finalTurn, task)],
               currentTurn := None \<rparr>)
         else s\<lparr> currentTurn := None \<rparr>)"

definition onmessage ::
  "(string \<times> string) list \<Rightarrow> nat \<Rightarrow> nat \<Rightarrow> LiveServerMessage \<Rightarrow> app \<Rightarrow> app" where
  "onmessage LANGUAGES k now message s =
     (case map_of (callbacks s) k of
        None \<Rightarrow> s
      | Some r \<Rightarrow>
         (let s1 = (case inputTranscription message of
                      None \<Rightarrow> s
                    | Some text \<Rightarrow>
                        s\<lparr> currentTurn := Some (fragment_update now text (currentTurn s)),
                           turnObject := Suc (turnObject s) \<rparr>) in
          if turnComplete message then turnComplete_update LANGUAGES r s1 else s1))"

definition onerror :: "nat \<Rightarrow> app \<Rightarrow> app" where
  "onerror k s =
     (case map_of (callbacks s) k of
        None \<Rightarrow> s
      | Some r \<Rightarrow>
         stopListening (r_currentTurn r)
           (s\<lparr> errorMessage := ''An API error occurred. Please try again.'',
               status := Error \<rparr>))"

definition onclose :: "nat \<Rightarrow> app \<Rightarrow> app" where
  "onclose k s =
     (case map_of (callbacks s) k of
        None \<Rightarrow> s
      | Some r \<Rightarrow>
         if r_status r = Idle then s
         else if r_status r = Error then s
         else s\<lparr> status := Idle \<rparr>)"

subsection \<open>handleToggleRecording (lines 248-254)\<close>

definition handleToggleRecording :: "render \<Rightarrow> start_env \<Rightarrow> app \<Rightarrow> app" where
  "handleToggleRecording r env s =
     (if r_status r = Listening \<or> r_status r = Connecting
      then stopListening (r_currentTurn r) s
      else start_until_await r env s)"

subsection \<open>Runs\<close>

text \<open>
  An event is one handler invocation together with the renders it causes. A click
  runs the \<open>handleToggleRecording\<close> of the committed render, unless the button is
  disabled (line 319: status \<open>connecting\<close>); of its \<open>env\<close> only \<open>API_KEY\<close> is read.
  \<open>Media env\<close> lets the \<open>getUserMedia\<close> promise of the oldest suspended
  \<open>startListening\<close> settle as \<open>env\<close> says and runs it to its end.
  A connection's callbacks run with the render captured when \<open>startListening\<close> built
  them. \<open>Settled i out\<close> lets the \<open>i\<close>-th pending translation finish with outcome \<open>out\<close>
  and runs its \<open>.then\<close>. \<open>Unmount\<close> runs the installed cleanup a last time.
\<close>

datatype event =
    Click start_env
  | Media start_env
  | Open nat
  | Message nat nat LiveServerMessage
  | Failure nat
  | Close nat
  | Settled nat remote_outcome
  | Unmount

definition settled :: "nat \<Rightarrow> remote_outcome \<Rightarrow> app \<Rightarrow> app" where
  "settled i out s =
     (if i < length (pending s) then
        translation_then (fst (pending s ! i)) (settle (snd (pending s ! i)) out)
          (s\<lparr> pending := take i (pending s) @ drop (Suc i) (pending s) \<rparr>)
      else s)"

definition resume :: "start_env \<Rightarrow> app \<Rightarrow> app" where
  "resume env s =
     (case suspended s of
        [] \<Rightarrow> s
      | r # rs \<Rightarrow> start_after_await r env (s\<lparr> suspended := rs \<rparr>))"

fun step :: "(string \<times> string) list \<Rightarrow> app \<Rightarrow> event \<Rightarrow> app" where
  "step L s (Click env) =
     (if r_status (committed s) = Connecting then s
      else commit (handleToggleRecording (committed s) env s))"
| "step L s (Media env) = commit (resume env s)"
| "step L s (Open k) = commit (onopen k s)"
| "step L s (Message k now m) = commit (onmessage L k now m s)"
| "step L s (Failure k) = commit (onerror k s)"
| "step L s (Close k) = commit (onclose k s)"
| "step L s (Settled i out) = commit (settled i out s)"
| "step L s Unmount = effect_cleanup (committed s) s"

definition run :: "(string \<times> string) list \<Rightarrow> event list \<Rightarrow> app \<Rightarrow> app" where
  "run L es s = foldl (step L) s es"

definition granted :: start_env where
  "granted = \<lparr> API_KEY = True, getUserMedia = None, newAudioContext = None, liveConnect = None \<rparr>"

definition fragment :: "string \<Rightarrow> LiveServerMessage" where
  "fragment text = \<lparr> inputTranscription = Some text, turnComplete = False \<rparr>"

definition boundary :: LiveServerMessage where
  "boundary = \<lparr> inputTranscription = None, turnComplete = True \<rparr>"

subsection \<open>Scenarios and auxiliary notions\<close>

text \<open>
  The user has clicked, the microphone is granted, the audio context and the connection
  (handle 2) exist, and the connection has not opened yet: status \<open>connecting\<close>.
\<close>

definition connecting_state :: app where
  "connecting_state = run [] [Click granted, Media granted] initial"

text \<open>
  The connection has opened. \<open>onopen\<close> sets the status to \<open>listening\<close>; the cleanup of
  the \<open>connecting\<close> render then runs \<open>stopListening\<close>, so this state has status \<open>idle\<close>
  and no live resource.
\<close>

definition after_open :: app where
  "after_open = run [] [Click granted, Media granted, Open 2] initial"

text \<open>
  After that the user has clicked again, and the new run of \<open>startListening\<close> waits
  for the microphone: status \<open>connecting\<close>, nothing live.
\<close>

definition reconnecting_state :: app where
  "reconnecting_state = run [] [Click granted, Media granted, Open 2, Click granted] initial"

text \<open>The fragment \<open>test\<close> has arrived on connection 2, and no turn boundary yet.\<close>

definition mid_turn :: app where
  "mid_turn =
     run [] [Click granted, Media granted, Open 2, Message 2 100 (fragment ''test'')] initial"

text \<open>One turn has been completed and its translation request is in flight.\<close>

definition awaiting_translation :: app where
  "awaiting_translation =
     run [] [Click granted, Media granted, Open 2, Message 2 100 (fragment ''hola''),
             Message 2 101 boundary] initial"

text \<open>
  Two messages, each a fragment with its turn boundary, were processed at the same
  clock reading 5; both translation requests are in flight.
\<close>

definition two_turns_one_clock :: app where
  "two_turns_one_clock =
     run [] [Click granted, Media granted, Open 2,
             Message 2 5 \<lparr>inputTranscription = Some ''a'', turnComplete = True\<rparr>,
             Message 2 5 \<lparr>inputTranscription = Some ''b'', turnComplete = True\<rparr>] initial"

text \<open>The microphone is granted, but the browser has no \<open>AudioContext\<close> constructor.\<close>

definition no_audio_interface :: start_env where
  "no_audio_interface =
     granted\<lparr> newAudioContext := Some (ErrorObject ''AudioContext is not a constructor'') \<rparr>"

text \<open>The user refuses the microphone.\<close>

definition microphone_denied :: start_env where
  "microphone_denied = granted\<lparr> getUserMedia := Some (ErrorObject ''Permission denied'') \<rparr>"

text \<open>\<open>process.env.API_KEY\<close> is not set.\<close>

definition no_key :: start_env where
  "no_key = granted\<lparr> API_KEY := False \<rparr>"



text \<open>
  The messages of one connection, each with the clock reading at the moment it is
  processed, as a run of \<open>Message\<close> events.
\<close>

fun feed :: "(string \<times> string) list \<Rightarrow> nat \<Rightarrow> (nat \<times> LiveServerMessage) list \<Rightarrow> app \<Rightarrow> app" where
  "feed L k [] s = s"
| "feed L k ((now, m) # ms) s = feed L k ms (step L s (Message k now m))"

definition fragments :: "(nat \<times> string) list \<Rightarrow> (nat \<times> LiveServerMessage) list" where
  "fragments fs = map (\<lambda>(now, text). (now, fragment text)) fs"



text \<open>The ids in the history are pairwise distinct and differ from the current turn's id.\<close>

definition fresh_ids :: "app \<Rightarrow> bool" where
  "fresh_ids s =
     (distinct (map id_turn (history s)) \<and>
      (case currentTurn s of
         None \<Rightarrow> True
       | Some t \<Rightarrow> id_turn t \<notin> set (map id_turn (history s))))"


text \<open>The status is \<open>idle\<close> or \<open>error\<close>, in the cell and in the committed render.\<close>

definition inactive :: "app \<Rightarrow> bool" where
  "inactive s =
     ((status s = Idle \<or> status s = Error) \<and>
      (r_status (committed s) = Idle \<or> r_status (committed s) = Error))"

lemmas handler_defs = run_def initial_def granted_def fragment_def boundary_def render_of_def
  handleToggleRecording_def start_until_await_def start_after_await_def resume_def
  start_reset_def start_catch_def
  onopen_def onmessage_def fragment_update_def turnComplete_update_def onerror_def onclose_def
  stopListening_def release_def effect_cleanup_def settled_def translation_then_def
  translateText_def langName_def commit_def commit1_def deps_changed_def same_stopListening_def

section \<open>Properties\<close>

subsection \<open>Facts about render and commit\<close>

lemma deps_changed_refl [simp]: "\<not> deps_changed r r"
  by (simp add: deps_changed_def same_stopListening_def split: option.splits)

lemma render_of_committed [simp]: "render_of (s\<lparr>committed := c\<rparr>) = render_of s"
  by (simp add: render_of_def)

lemma commit1_unchanged:
  "\<not> deps_changed (committed s) (render_of s) \<Longrightarrow> commit1 s = s\<lparr>committed := render_of s\<rparr>"
  by (simp add: commit1_def)

lemma commit1_inactive:
  "r_status (committed s) = Idle \<or> r_status (committed s) = Error \<Longrightarrow>
   commit1 s = s\<lparr>committed := render_of s\<rparr>"
  by (auto simp add: commit1_def effect_cleanup_def)

lemma commit1_rendered: "commit1 (s\<lparr>committed := render_of s\<rparr>) = s\<lparr>committed := render_of s\<rparr>"
  by (simp add: commit1_def)

text \<open>When the committed cleanup has nothing to do, the commit only records the render.\<close>

lemma commit_simple:
  assumes "\<not> deps_changed (committed s) (render_of s) \<or>
           r_status (committed s) = Idle \<or> r_status (committed s) = Error"
  shows "commit s = s\<lparr>committed := render_of s\<rparr>"
proof -
  have "commit1 s = s\<lparr>committed := render_of s\<rparr>"
    using assms commit1_unchanged commit1_inactive by blast
  then show ?thesis
    by (simp add: commit_def commit1_rendered)
qed

text \<open>
  Otherwise the committed cleanup stops the session, and the cleanup of the render
  that was being committed runs in the round after.
\<close>

lemma commit_stopping:
  assumes "deps_changed (committed s) (render_of s)"
    and "r_status (committed s) = Listening \<or> r_status (committed s) = Connecting"
  shows "commit s =
     (effect_cleanup (render_of s) (stopListening (r_currentTurn (committed s)) s))
       \<lparr>committed := render_of (stopListening (r_currentTurn (committed s)) s)\<rparr>"
proof -
  let ?s1 = "stopListening (r_currentTurn (committed s)) s"
  have 1: "commit1 s = ?s1\<lparr>committed := render_of s\<rparr>"
    using assms by (simp add: commit1_def effect_cleanup_def)
  have 2: "commit1 (?s1\<lparr>committed := render_of s\<rparr>) =
             (effect_cleanup (render_of s) ?s1)\<lparr>committed := render_of ?s1\<rparr>"
    by (auto simp add: commit1_def effect_cleanup_def deps_changed_def same_stopListening_def
        render_of_def stopListening_def split: option.splits)
  have 3: "commit1 ((effect_cleanup (render_of s) ?s1)\<lparr>committed := render_of ?s1\<rparr>) =
             (effect_cleanup (render_of s) ?s1)\<lparr>committed := render_of ?s1\<rparr>"
    by (auto simp add: commit1_def effect_cleanup_def deps_changed_def same_stopListening_def
        render_of_def stopListening_def split: option.splits)
  show ?thesis
    by (simp only: commit_def 1 2 3)
qed

lemma commit_cases:
  obtains (simple) "commit s = s\<lparr>committed := render_of s\<rparr>"
  | (stopping) "r_status (committed s) = Listening \<or> r_status (committed s) = Connecting"
      "deps_changed (committed s) (render_of s)"
      "commit s =
        (effect_cleanup (render_of s) (stopListening (r_currentTurn (committed s)) s))
          \<lparr>committed := render_of (stopListening (r_currentTurn (committed s)) s)\<rparr>"
proof (cases "deps_changed (committed s) (render_of s) \<and>
          (r_status (committed s) = Listening \<or> r_status (committed s) = Connecting)")
  case True
  then show ?thesis using commit_stopping stopping by blast
next
  case False
  then have "commit s = s\<lparr>committed := render_of s\<rparr>"
    by (intro commit_simple) (cases "r_status (committed s)", auto)
  then show ?thesis by (rule simple)
qed

text \<open>A further render after a commit changes nothing.\<close>

lemma commit_stable: "commit1 (commit s) = commit s"
proof (cases s rule: commit_cases)
  case simple
  then show ?thesis by (simp add: commit1_rendered)
next
  case stopping
  then show ?thesis
    by (auto simp add: commit1_def effect_cleanup_def deps_changed_def
        same_stopListening_def render_of_def stopListening_def split: option.splits)
qed

lemma commit_rendered: "committed (commit s) = render_of (commit s)"
proof (cases s rule: commit_cases)
  case simple
  then show ?thesis by simp
next
  case stopping
  then show ?thesis
    by (auto simp add: effect_cleanup_def render_of_def stopListening_def)
qed




lemma release_length: "length (release ref live) \<le> length live"
  by (simp add: release_def length_removeAll_less_eq split: option.splits)

lemma stop_frame:
  "nextHandle (stopListening ct s) = nextHandle s \<and>
   callbacks (stopListening ct s) = callbacks s \<and>
   suspended (stopListening ct s) = suspended s \<and>
   requests (stopListening ct s) = requests s \<and>
   pending (stopListening ct s) = pending s \<and>
   length (liveTracks (stopListening ct s)) \<le> length (liveTracks s) \<and>
   length (openContexts (stopListening ct s)) \<le> length (openContexts s) \<and>
   length (connectedProcessors (stopListening ct s)) \<le> length (connectedProcessors s) \<and>
   length (openSessions (stopListening ct s)) \<le> length (openSessions s)"
  by (simp add: stopListening_def release_length)

lemma cleanup_frame:
  "nextHandle (effect_cleanup r s) = nextHandle s \<and>
   callbacks (effect_cleanup r s) = callbacks s \<and>
   suspended (effect_cleanup r s) = suspended s \<and>
   requests (effect_cleanup r s) = requests s \<and>
   pending (effect_cleanup r s) = pending s \<and>
   length (liveTracks (effect_cleanup r s)) \<le> length (liveTracks s) \<and>
   length (openContexts (effect_cleanup r s)) \<le> length (openContexts s) \<and>
   length (connectedProcessors (effect_cleanup r s)) \<le> length (connectedProcessors s) \<and>
   length (openSessions (effect_cleanup r s)) \<le> length (openSessions s)"
  by (simp add: effect_cleanup_def stop_frame)

text \<open>A commit allocates nothing, registers nothing, and sends nothing.\<close>

lemma commit_frame:
  "nextHandle (commit s) = nextHandle s \<and>
   callbacks (commit s) = callbacks s \<and>
   suspended (commit s) = suspended s \<and>
   requests (commit s) = requests s \<and>
   pending (commit s) = pending s \<and>
   length (liveTracks (commit s)) \<le> length (liveTracks s) \<and>
   length (openContexts (commit s)) \<le> length (openContexts s) \<and>
   length (connectedProcessors (commit s)) \<le> length (connectedProcessors s) \<and>
   length (openSessions (commit s)) \<le> length (openSessions s)"
proof (cases s rule: commit_cases)
  case simple
  then show ?thesis by simp
next
  case stopping
  let ?s1 = "stopListening (r_currentTurn (committed s)) s"
  note a = stop_frame [of "r_currentTurn (committed s)" s]
  note b = cleanup_frame [of "render_of s" ?s1]
  from a b show ?thesis
    unfolding stopping(3) by simp
qed

text \<open>
  The two halves of \<open>startListening\<close> that the runs use compose to the whole function
  when nothing happens while it waits.
\<close>

lemma startListening_split:
  "startListening r env s =
     (if API_KEY env
      then (start_after_await r env (start_until_await r env s))\<lparr>suspended := suspended s\<rparr>
      else start_until_await r env s)"
  by (simp add: startListening_def start_try_def start_until_await_def start_after_await_def
      start_reset_def start_catch_def Let_def split: option.splits)

subsection \<open>C1: callbacks that fire after stop\<close>

text \<open>
  C1, as stated, fails. In \<open>after_open\<close> the effect cleanup has run \<open>stopListening\<close>:
  the status is \<open>idle\<close>, nothing is live, the slot and the history are empty. A
  fragment that connection 2 delivers afterwards still fills the slot, the turn boundary
  after it still appends to the history, and the completion of the translation still
  rewrites the entry: no guard of any kind stands between a late callback and the
  state.
\<close>

theorem late_callbacks_counterexample:
  "status after_open = Idle \<and> openSessions after_open = [] \<and> liveTracks after_open = [] \<and>
   currentTurn after_open = None \<and> history after_open = [] \<and>
   currentTurn (run [] [Message 2 100 (fragment ''hola'')] after_open) =
     Some \<lparr>id_turn = 100, original = ''hola'', translated = [], isFinal = False\<rparr> \<and>
   history (run [] [Message 2 100 (fragment ''hola''), Message 2 101 boundary] after_open) =
     [\<lparr>id_turn = 100, original = ''hola'', translated = [], isFinal = True\<rparr>] \<and>
   history (run [] [Message 2 100 (fragment ''hola''), Message 2 101 boundary,
                    Settled 0 (Resolves ''hello'')] after_open) =
     [\<lparr>id_turn = 100, original = ''hola'', translated = ''hello'', isFinal = True\<rparr>]"
  by (simp add: after_open_def handler_defs)

text \<open>
  C1 (amended): \<open>stopListening\<close> empties the current-turn slot and installs no guard.
  A turn-complete message that arrives right after it changes nothing, because the slot
  is empty; a late fragment message still creates a current turn; a late translation
  completion still overwrites the \<open>translated\<close> field of the history entries that carry
  its turn id.
\<close>

theorem late_callbacks_unguarded:
  assumes "map_of (callbacks s) k = Some r" and "i < length (pending s)"
  shows "currentTurn (stopListening ct s) = None \<and>
         onmessage L k now boundary (stopListening ct s) = stopListening ct s \<and>
         currentTurn (onmessage L k now (fragment text) (stopListening ct s)) =
           Some \<lparr>id_turn = now, original = text, translated = [], isFinal = False\<rparr> \<and>
         history (settled i out (stopListening ct s)) =
           map (\<lambda>h. if id_turn h = fst (pending s ! i)
                     then h\<lparr>translated := settle (snd (pending s ! i)) out\<rparr> else h)
               (history (stopListening ct s))"
  using assms
  by (simp add: onmessage_def boundary_def fragment_def turnComplete_update_def
      fragment_update_def stopListening_def settled_def translation_then_def)

text \<open>
  The witness takes the stop that \<open>onerror\<close> performs while the translation of the
  turn \<open>hola\<close> is in flight.
\<close>

theorem late_callbacks_unguarded_witness:
  "currentTurn (onmessage [] 2 7 (fragment ''late'') (onerror 2 awaiting_translation)) =
     Some \<lparr>id_turn = 7, original = ''late'', translated = [], isFinal = False\<rparr> \<and>
   history (settled 0 Rejects (onerror 2 awaiting_translation)) =
     [\<lparr>id_turn = 100, original = ''hola'', translated = ''[Translation failed]'',
       isFinal = True\<rparr>]"
proof -
  let ?s = "awaiting_translation\<lparr> errorMessage := ''An API error occurred. Please try again.'',
                                  status := Error \<rparr>"
  have e: "onerror 2 awaiting_translation = stopListening None ?s"
    by (simp add: awaiting_translation_def handler_defs)
  have k: "map_of (callbacks ?s) 2 =
             Some \<lparr>r_status = Idle, r_currentTurn = None, r_turnObject = 0,
                   r_sourceLanguage = ''es'', r_targetLanguage = ''en''\<rparr>"
    by (simp add: awaiting_translation_def handler_defs)
  have i: "0 < length (pending ?s)"
    by (simp add: awaiting_translation_def handler_defs)
  have p: "fst (pending ?s ! 0) = 100"
          "settle (snd (pending ?s ! 0)) Rejects = ''[Translation failed]''"
          "history (stopListening None ?s) =
             [\<lparr>id_turn = 100, original = ''hola'', translated = [], isFinal = True\<rparr>]"
    by (simp_all add: awaiting_translation_def handler_defs)
  from late_callbacks_unguarded [OF k i, of None "[]" 7 "''late''" Rejects] p
  show ?thesis by (simp add: e)
qed

subsection \<open>C2: a transport error in mid-stream\<close>

text \<open>
  C2 at a concrete run: the connection has opened and the fragment \<open>test\<close> has arrived
  when the transport reports an error. \<open>onerror\<close> calls the \<open>stopListening\<close> that
  \<open>startListening\<close> closed over: that one still sees the \<open>currentTurn\<close> of the render
  before the session began, so the turn in progress is dropped instead of appended; and
  its \<open>setStatus('idle')\<close> runs after \<open>setStatus('error')\<close>, so the status ends \<open>idle\<close>.
  The same happens when the error arrives while the session is still connecting and
  its resources are live: they are released, and the status ends \<open>idle\<close>.
\<close>

theorem onerror_trace:
  "status mid_turn = Idle \<and>
   currentTurn mid_turn =
     Some \<lparr>id_turn = 100, original = ''test'', translated = [], isFinal = False\<rparr> \<and>
   status (step [] mid_turn (Failure 2)) = Idle \<and>
   errorMessage (step [] mid_turn (Failure 2)) = ''An API error occurred. Please try again.'' \<and>
   history (step [] mid_turn (Failure 2)) = [] \<and>
   currentTurn (step [] mid_turn (Failure 2)) = None \<and>
   liveTracks (step [] mid_turn (Failure 2)) = [] \<and>
   openContexts (step [] mid_turn (Failure 2)) = [] \<and>
   connectedProcessors (step [] mid_turn (Failure 2)) = [] \<and>
   openSessions (step [] mid_turn (Failure 2)) = [] \<and>
   status connecting_state = Connecting \<and>
   liveTracks connecting_state = [0] \<and>
   openContexts connecting_state = [1] \<and>
   openSessions connecting_state = [2] \<and>
   status (step [] connecting_state (Failure 2)) = Idle \<and>
   errorMessage (step [] connecting_state (Failure 2)) =
     ''An API error occurred. Please try again.'' \<and>
   liveTracks (step [] connecting_state (Failure 2)) = [] \<and>
   openContexts (step [] connecting_state (Failure 2)) = [] \<and>
   openSessions (step [] connecting_state (Failure 2)) = []"
  by (simp add: mid_turn_def connecting_state_def handler_defs)

subsection \<open>C3: a start that fails\<close>

text \<open>
  C3 at concrete runs: the microphone is granted and \<open>new AudioContext\<close> throws, or the
  microphone is refused. The \<open>catch\<close> block sets the message and the status \<open>error\<close> and
  releases nothing itself; the render with status \<open>error\<close> then makes the cleanup of the
  \<open>connecting\<close> render run \<open>stopListening\<close>. So nothing stays allocated, but the status
  ends \<open>idle\<close>, and the message, which is shown only in status \<open>error\<close>, is never
  displayed. Only the missing key, which is thrown before the first render, ends in
  status \<open>error\<close>.
\<close>

theorem failed_start_ends_idle:
  "status (run [] [Click granted, Media no_audio_interface] initial) = Idle \<and>
   errorMessage (run [] [Click granted, Media no_audio_interface] initial) =
     ''Failed to start: AudioContext is not a constructor'' \<and>
   micStreamRef (run [] [Click granted, Media no_audio_interface] initial) = None \<and>
   liveTracks (run [] [Click granted, Media no_audio_interface] initial) = [] \<and>
   status (run [] [Click granted, Media microphone_denied] initial) = Idle \<and>
   errorMessage (run [] [Click granted, Media microphone_denied] initial) =
     ''Failed to start: Permission denied'' \<and>
   status (run [] [Click no_key] initial) = Error \<and>
   errorMessage (run [] [Click no_key] initial) =
     ''Failed to start: API_KEY environment variable not set.''"
  by (simp add: no_audio_interface_def microphone_denied_def no_key_def handler_defs)

subsection \<open>C4: start while a session is active\<close>

text \<open>
  C4, as stated, fails in its last part: two capture sessions can be active at once.
  In \<open>reconnecting_state\<close> a new \<open>startListening\<close> waits for the microphone. A late
  fragment from the first connection fills the slot; the cleanup of the \<open>connecting\<close>
  render then sets the status to \<open>idle\<close>, which enables the button again. A second
  click starts another \<open>startListening\<close>. When both \<open>getUserMedia\<close> promises resolve,
  each run acquires its own microphone stream, audio context and connection, and the
  refs keep only the last ones.
\<close>

theorem two_sessions_counterexample:
  "status reconnecting_state = Connecting \<and>
   liveTracks reconnecting_state = [] \<and>
   status (step [] reconnecting_state (Message 2 7 (fragment ''x''))) = Idle \<and>
   liveTracks (run [] [Message 2 7 (fragment ''x''), Click granted, Media granted,
                       Media granted] reconnecting_state) = [7, 4] \<and>
   openContexts (run [] [Message 2 7 (fragment ''x''), Click granted, Media granted,
                         Media granted] reconnecting_state) = [8, 5] \<and>
   openSessions (run [] [Message 2 7 (fragment ''x''), Click granted, Media granted,
                         Media granted] reconnecting_state) = [9, 6] \<and>
   micStreamRef (run [] [Message 2 7 (fragment ''x''), Click granted, Media granted,
                         Media granted] reconnecting_state) = Some 7"
  by (simp add: reconnecting_state_def handler_defs)

text \<open>
  C4 (amended): while the committed status is \<open>connecting\<close> the button is disabled and
  a click changes nothing; while it is \<open>listening\<close> the click runs \<open>stopListening\<close> and
  not \<open>startListening\<close>. In both cases the click creates no capture session: it
  allocates no handle, registers no callbacks, suspends no new run of
  \<open>startListening\<close>, and leaves no more microphone streams, audio contexts, processors
  or connections live than there were.
\<close>

theorem click_while_active_starts_nothing:
  assumes "r_status (committed s) = Connecting \<or> r_status (committed s) = Listening"
  shows "(if r_status (committed s) = Connecting then step L s (Click env) = s
          else step L s (Click env) = commit (stopListening (r_currentTurn (committed s)) s)) \<and>
         nextHandle (step L s (Click env)) = nextHandle s \<and>
         callbacks (step L s (Click env)) = callbacks s \<and>
         suspended (step L s (Click env)) = suspended s \<and>
         length (liveTracks (step L s (Click env))) \<le> length (liveTracks s) \<and>
         length (openContexts (step L s (Click env))) \<le> length (openContexts s) \<and>
         length (connectedProcessors (step L s (Click env))) \<le> length (connectedProcessors s) \<and>
         length (openSessions (step L s (Click env))) \<le> length (openSessions s)"
proof (cases "r_status (committed s) = Connecting")
  case True
  then show ?thesis by simp
next
  case False
  with assms have l: "r_status (committed s) = Listening" by simp
  let ?s1 = "stopListening (r_currentTurn (committed s)) s"
  have st: "step L s (Click env) = commit ?s1"
    using l by (simp add: handleToggleRecording_def)
  note a = stop_frame [of "r_currentTurn (committed s)" s]
  note b = commit_frame [of ?s1]
  from a b show ?thesis
    unfolding st using False by simp
qed

theorem click_while_active_starts_nothing_witness:
  "r_status (committed connecting_state) = Connecting \<and>
   step [] connecting_state (Click granted) = connecting_state \<and>
   liveTracks (step [] connecting_state (Click granted)) = [0] \<and>
   openSessions (step [] connecting_state (Click granted)) = [2] \<and>
   nextHandle (step [] connecting_state (Click granted)) = 3"
proof -
  have c: "r_status (committed connecting_state) = Connecting"
    by (simp add: connecting_state_def handler_defs)
  then have h: "r_status (committed connecting_state) = Connecting
           \<or> r_status (committed connecting_state) = Listening" by simp
  have n: "nextHandle connecting_state = 3" "liveTracks connecting_state = [0]"
          "openSessions connecting_state = [2]"
    by (simp_all add: connecting_state_def handler_defs)
  from click_while_active_starts_nothing [OF h, of "[]" granted] c n
  show ?thesis by simp
qed

subsection \<open>C5: turn ids and the order of the history\<close>


lemma onmessage_committed: "committed (onmessage L k now m s) = committed s"
  by (simp add: onmessage_def turnComplete_update_def Let_def split: option.splits)



lemma fresh_ids_committed [simp]: "fresh_ids (s\<lparr>committed := c\<rparr>) = fresh_ids s"
  by (simp add: fresh_ids_def split: option.splits)













subsection \<open>C6: a forced stop in the middle of a turn\<close>

text \<open>
  C6 at a concrete run: in \<open>reconnecting_state\<close> the status is \<open>connecting\<close> when the
  fragment \<open>test\<close> arrives from the first connection. The change of the slot makes
  React run the effect cleanups, which stop the session with the turn in progress: the
  turn is appended to the history as final and the slot is emptied,
  but \<open>stopListening\<close> never calls \<open>translateText\<close>: no request is sent and none is
  pending, so the entry keeps an empty translation. The turn-complete message, for the
  same turn, appends the same entry and does request its translation.
\<close>

theorem stop_does_not_translate:
  "status reconnecting_state = Connecting \<and>
   history reconnecting_state = [] \<and>
   status (step [] reconnecting_state (Message 2 100 (fragment ''test''))) = Idle \<and>
   history (step [] reconnecting_state (Message 2 100 (fragment ''test''))) =
     [\<lparr>id_turn = 100, original = ''test'', translated = [], isFinal = True\<rparr>] \<and>
   currentTurn (step [] reconnecting_state (Message 2 100 (fragment ''test''))) = None \<and>
   requests (step [] reconnecting_state (Message 2 100 (fragment ''test''))) = [] \<and>
   pending (step [] reconnecting_state (Message 2 100 (fragment ''test''))) = [] \<and>
   history (step [] mid_turn (Message 2 101 boundary)) =
     [\<lparr>id_turn = 100, original = ''test'', translated = [], isFinal = True\<rparr>] \<and>
   currentTurn (step [] mid_turn (Message 2 101 boundary)) = None \<and>
   map fst (pending (step [] mid_turn (Message 2 101 boundary))) = [100] \<and>
   length (requests (step [] mid_turn (Message 2 101 boundary))) = 1"
  by (simp add: mid_turn_def reconnecting_state_def handler_defs)

subsection \<open>C7: what a translation completion writes\<close>

text \<open>
  C7, as stated, fails when two turns carry the same id (C5). In
  \<open>two_turns_one_clock\<close> the turns \<open>a\<close> and \<open>b\<close> both have id 5 and both translations are
  in flight. The completion for \<open>a\<close> also overwrites the entry of \<open>b\<close>, and the final
  history depends on the order in which the two completions arrive.
\<close>

theorem colliding_completions_counterexample:
  "map original (history two_turns_one_clock) = [''a'', ''b''] \<and>
   map fst (pending two_turns_one_clock) = [5, 5] \<and>
   map translated (history (run [] [Settled 0 (Resolves ''A'')] two_turns_one_clock)) =
     [''A'', ''A''] \<and>
   map translated (history (run [] [Settled 0 (Resolves ''A''), Settled 0 (Resolves ''B'')]
                              two_turns_one_clock)) = [''B'', ''B''] \<and>
   map translated (history (run [] [Settled 1 (Resolves ''B''), Settled 0 (Resolves ''A'')]
                              two_turns_one_clock)) = [''A'', ''A'']"
  by (simp add: two_turns_one_clock_def handler_defs)

text \<open>
  C7 (amended): the \<open>.then\<close> callback of a translation keeps the length of the history
  and maps every entry to itself, except that every entry whose id is the completed
  turn's id gets the new \<open>translated\<close>; when the ids in the history are pairwise distinct
  that is at most one entry. Ids, originals and final flags are the same lists as
  before, the current turn is untouched, and completions for two different ids commute.
\<close>

theorem translation_then_frame:
  "length (history (translation_then fid v s)) = length (history s) \<and>
   (\<forall>i < length (history s).
      history (translation_then fid v s) ! i =
        (if id_turn (history s ! i) = fid then (history s ! i)\<lparr>translated := v\<rparr>
         else history s ! i)) \<and>
   map id_turn (history (translation_then fid v s)) = map id_turn (history s) \<and>
   map original (history (translation_then fid v s)) = map original (history s) \<and>
   map isFinal (history (translation_then fid v s)) = map isFinal (history s) \<and>
   currentTurn (translation_then fid v s) = currentTurn s \<and>
   (fid \<noteq> fid' \<longrightarrow>
      translation_then fid v (translation_then fid' v' s) =
      translation_then fid' v' (translation_then fid v s)) \<and>
   (distinct (map id_turn (history s)) \<longrightarrow>
      (\<forall>i < length (history s). \<forall>j < length (history s).
         id_turn (history s ! i) = fid \<and> id_turn (history s ! j) = fid \<longrightarrow> i = j))"
proof -
  have d: "i = j"
    if "distinct (map id_turn (history s))" "i < length (history s)" "j < length (history s)"
       "id_turn (history s ! i) = fid" "id_turn (history s ! j) = fid" for i j
  proof -
    have "map id_turn (history s) ! i = map id_turn (history s) ! j"
      using that by simp
    then show ?thesis
      using that(1-3) by (simp add: nth_eq_iff_index_eq del: nth_map)
  qed
  have rest: "length (history (translation_then fid v s)) = length (history s) \<and>
   (\<forall>i < length (history s).
      history (translation_then fid v s) ! i =
        (if id_turn (history s ! i) = fid then (history s ! i)\<lparr>translated := v\<rparr>
         else history s ! i)) \<and>
   map id_turn (history (translation_then fid v s)) = map id_turn (history s) \<and>
   map original (history (translation_then fid v s)) = map original (history s) \<and>
   map isFinal (history (translation_then fid v s)) = map isFinal (history s) \<and>
   currentTurn (translation_then fid v s) = currentTurn s \<and>
   (fid \<noteq> fid' \<longrightarrow>
      translation_then fid v (translation_then fid' v' s) =
      translation_then fid' v' (translation_then fid v s))"
    by (auto simp add: translation_then_def)
  from rest d show ?thesis by blast
qed

theorem translation_then_frame_witness:
  "history (translation_then 2 ''dos'' (translation_then 1 ''uno''
      (initial\<lparr>history := [\<lparr>id_turn = 1, original = ''one'', translated = [], isFinal = True\<rparr>,
                             \<lparr>id_turn = 2, original = ''two'', translated = [], isFinal = True\<rparr>]\<rparr>))) =
     [\<lparr>id_turn = 1, original = ''one'', translated = ''uno'', isFinal = True\<rparr>,
      \<lparr>id_turn = 2, original = ''two'', translated = ''dos'', isFinal = True\<rparr>] \<and>
   history (translation_then 1 ''uno'' (translation_then 2 ''dos''
      (initial\<lparr>history := [\<lparr>id_turn = 1, original = ''one'', translated = [], isFinal = True\<rparr>,
                             \<lparr>id_turn = 2, original = ''two'', translated = [], isFinal = True\<rparr>]\<rparr>))) =
     [\<lparr>id_turn = 1, original = ''one'', translated = ''uno'', isFinal = True\<rparr>,
      \<lparr>id_turn = 2, original = ''two'', translated = ''dos'', isFinal = True\<rparr>]"
  using translation_then_frame [of 2 "''dos''"
      "initial\<lparr>history := [\<lparr>id_turn = 1, original = ''one'', translated = [], isFinal = True\<rparr>,
                             \<lparr>id_turn = 2, original = ''two'', translated = [], isFinal = True\<rparr>]\<rparr>"
      1 "''uno''"]
  by (simp add: translation_then_def)

subsection \<open>C8: fragments accumulate in arrival order\<close>

lemma onmessage_callbacks: "callbacks (onmessage L k now m s) = callbacks s"
  by (simp add: onmessage_def turnComplete_update_def Let_def split: option.splits)

lemma message_step_inactive:
  assumes "inactive s"
  shows "step L s (Message k now m) =
           (onmessage L k now m s)\<lparr>committed := render_of (onmessage L k now m s)\<rparr>"
  using assms by (simp add: inactive_def commit_simple onmessage_committed)

lemma fragment_step_inactive:
  assumes "inactive s" and "map_of (callbacks s) k = Some r"
  shows "step L s (Message k now (fragment tx)) =
           s\<lparr>currentTurn := Some (fragment_update now tx (currentTurn s)),
             turnObject := Suc (turnObject s),
             committed := \<lparr>r_status = status s,
                            r_currentTurn = Some (fragment_update now tx (currentTurn s)),
                            r_turnObject = Suc (turnObject s),
                            r_sourceLanguage = sourceLanguage s,
                            r_targetLanguage = targetLanguage s\<rparr>\<rparr>"
  using assms
  by (simp add: message_step_inactive onmessage_def fragment_def render_of_def
      del: step.simps)

lemma feed_fragments_inactive:
  "inactive s \<Longrightarrow> map_of (callbacks s) k = Some r \<Longrightarrow> currentTurn s = Some p \<Longrightarrow>
   currentTurn (feed L k (fragments fs) s) =
     Some (if fs = [] then p
           else \<lparr>id_turn = id_turn p, original = original p @ concat (map snd fs),
                 translated = translated p, isFinal = False\<rparr>) \<and>
   history (feed L k (fragments fs) s) = history s \<and>
   callbacks (feed L k (fragments fs) s) = callbacks s \<and>
   inactive (feed L k (fragments fs) s)"
proof (induction fs arbitrary: s p)
  case Nil
  then show ?case by (simp add: fragments_def)
next
  case (Cons f fs)
  obtain now tx where f: "f = (now, tx)" by (cases f)
  let ?s = "step L s (Message k now (fragment tx))"
  let ?p = "fragment_update now tx (Some p)"
  note st = fragment_step_inactive [OF Cons.prems(1) Cons.prems(2), of L now tx]
  have ina: "inactive ?s"
    using Cons.prems(1) by (simp add: st inactive_def del: step.simps)
  have cb: "map_of (callbacks ?s) k = Some r"
    using Cons.prems(2) by (simp add: st del: step.simps)
  have cur: "currentTurn ?s = Some ?p"
    using Cons.prems(3) by (simp add: st del: step.simps)
  have hs: "history ?s = history s" "callbacks ?s = callbacks s"
    by (simp_all add: st del: step.simps)
  have fd: "feed L k (fragments (f # fs)) s = feed L k (fragments fs) ?s"
    by (simp add: fragments_def f del: step.simps)
  from Cons.IH [OF ina cb cur] show ?case
    unfolding fd hs by (simp add: fragment_update_def f del: step.simps)
qed

text \<open>
  C8, as stated, fails in one point: the id that the first fragment assigns is the
  clock reading, and it is fresh only if the clock has moved on. In
  \<open>awaiting_translation\<close> the history holds a turn with id 100; a fragment processed
  at clock reading 100 starts a turn with that same id.
\<close>

theorem stale_clock_counterexample:
  "map id_turn (history awaiting_translation) = [100] \<and>
   currentTurn awaiting_translation = None \<and>
   currentTurn (step [] awaiting_translation (Message 2 100 (fragment ''adios''))) =
     Some \<lparr>id_turn = 100, original = ''adios'', translated = [], isFinal = False\<rparr>"
  by (simp add: awaiting_translation_def handler_defs)

text \<open>
  C8 (amended): the first fragment of a turn (the slot is empty) creates the current
  turn with the clock reading as id, its text as \<open>original\<close>, an empty \<open>translated\<close> and
  \<open>isFinal\<close> false; a later fragment keeps id and \<open>translated\<close> and appends its text to
  \<open>original\<close>. While the status is \<open>idle\<close> or \<open>error\<close> (in the cell and in the
  committed render), after the fragments \<open>(n, t) # fs\<close> the current turn has the id \<open>n\<close> of the first and as \<open>original\<close> the concatenation of
  all texts in arrival order, the history is untouched, and the turn boundary that
  follows appends exactly this turn, marked final, to the history (nothing when the
  concatenation is empty) and empties the slot.
\<close>

theorem fragments_concatenate:
  assumes "map_of (callbacks s) k = Some r" and "currentTurn s = None" and "inactive s"
  shows "fragment_update n t None =
           \<lparr>id_turn = n, original = t, translated = [], isFinal = False\<rparr> \<and>
         fragment_update n' t' (Some p) =
           \<lparr>id_turn = id_turn p, original = original p @ t', translated = translated p,
            isFinal = False\<rparr> \<and>
         currentTurn (feed L k (fragments ((n, t) # fs)) s) =
           Some \<lparr>id_turn = n, original = concat (t # map snd fs),
                 translated = [], isFinal = False\<rparr> \<and>
         history (feed L k (fragments ((n, t) # fs)) s) = history s \<and>
         history (step L (feed L k (fragments ((n, t) # fs)) s) (Message k n'' boundary)) =
           (if concat (t # map snd fs) = [] then history s
            else history s @ [\<lparr>id_turn = n, original = concat (t # map snd fs),
                                translated = [], isFinal = True\<rparr>]) \<and>
         currentTurn (step L (feed L k (fragments ((n, t) # fs)) s) (Message k n'' boundary)) =
           None"
proof -
  let ?s = "step L s (Message k n (fragment t))"
  let ?f = "feed L k (fragments ((n, t) # fs)) s"
  define tx where "tx = concat (t # map snd fs)"
  note st = fragment_step_inactive [OF assms(3) assms(1), of L n t]
  have ina: "inactive ?s"
    using assms(3) by (simp add: st inactive_def del: step.simps)
  have cb: "map_of (callbacks ?s) k = Some r"
    using assms(1) by (simp add: st del: step.simps)
  have cur: "currentTurn ?s =
      Some \<lparr>id_turn = n, original = t, translated = [], isFinal = False\<rparr>"
    using assms(2) by (simp add: st fragment_update_def del: step.simps)
  have hs: "history ?s = history s" "callbacks ?s = callbacks s"
    by (simp_all add: st del: step.simps)
  have fd: "?f = feed L k (fragments fs) ?s"
    by (simp add: fragments_def del: step.simps)
  note fed = feed_fragments_inactive [OF ina cb cur, of L fs]
  have c: "currentTurn ?f =
      Some \<lparr>id_turn = n, original = tx, translated = [], isFinal = False\<rparr>"
    using fed unfolding fd tx_def by (simp del: step.simps)
  have h: "history ?f = history s"
    using fed unfolding fd hs by (simp del: step.simps)
  have k: "map_of (callbacks ?f) k = Some r"
    using fed assms(1) unfolding fd hs by (simp del: step.simps)
  have i: "inactive ?f"
    using fed unfolding fd by (simp del: step.simps)
  have b: "step L ?f (Message k n'' boundary) =
      (onmessage L k n'' boundary ?f)\<lparr>committed := render_of (onmessage L k n'' boundary ?f)\<rparr>"
    using i by (rule message_step_inactive)
  have 5: "history (step L ?f (Message k n'' boundary)) =
           (if tx = [] then history s
            else history s @ [\<lparr>id_turn = n, original = tx,
                                translated = [], isFinal = True\<rparr>])"
    unfolding b using k c h
    by (simp add: onmessage_def boundary_def turnComplete_update_def Let_def)
  have 6: "currentTurn (step L ?f (Message k n'' boundary)) = None"
    unfolding b using k c
    by (simp add: onmessage_def boundary_def turnComplete_update_def Let_def)
  have 1: "fragment_update n t None =
           \<lparr>id_turn = n, original = t, translated = [], isFinal = False\<rparr>"
          "fragment_update n' t' (Some p) =
           \<lparr>id_turn = id_turn p, original = original p @ t', translated = translated p,
            isFinal = False\<rparr>"
    by (simp_all add: fragment_update_def)
  from 1 c h 5 6 show ?thesis
    unfolding tx_def by blast
qed

theorem fragments_concatenate_witness:
  "history (step [] (feed [] 2 (fragments [(101, ''Hola''), (102, '' mundo'')]) after_open)
             (Message 2 103 boundary)) =
     [\<lparr>id_turn = 101, original = ''Hola mundo'', translated = [], isFinal = True\<rparr>]"
proof -
  have k: "map_of (callbacks after_open) 2 =
             Some \<lparr>r_status = Idle, r_currentTurn = None, r_turnObject = 0,
                   r_sourceLanguage = ''es'', r_targetLanguage = ''en''\<rparr>"
    by (simp add: after_open_def handler_defs)
  have c: "currentTurn after_open = None" "history after_open = []"
    by (simp_all add: after_open_def handler_defs)
  have i: "inactive after_open"
    by (simp add: inactive_def after_open_def handler_defs)
  note fragments_concatenate [OF k c(1) i, where L = "[]" and n = 101 and t = "''Hola''"
      and fs = "[(102, '' mundo'')]" and n'' = 103]
  from this [THEN conjunct2, THEN conjunct2, THEN conjunct2, THEN conjunct2, THEN conjunct1] c(2)
  show ?thesis by simp
qed

subsection \<open>C9: a failed translation\<close>

text \<open>
  C9, as stated, fails when two turns carry the same id (C5). In
  \<open>two_turns_one_clock\<close> the request for turn \<open>a\<close> fails: the failure marker is written
  into the entry of the later turn \<open>b\<close> as well, and it replaces the translation of \<open>b\<close>
  when that had arrived before.
\<close>

theorem colliding_failure_counterexample:
  "map original (history two_turns_one_clock) = [''a'', ''b''] \<and>
   map translated (history (run [] [Settled 0 Rejects] two_turns_one_clock)) =
     [''[Translation failed]'', ''[Translation failed]''] \<and>
   map translated (history (run [] [Settled 1 (Resolves ''B''), Settled 0 Rejects]
                              two_turns_one_clock)) =
     [''[Translation failed]'', ''[Translation failed]'']"
  by (simp add: two_turns_one_clock_def handler_defs)

text \<open>
  C9 (amended): when the remote call of a pending translation fails, \<open>translateText\<close>
  resolves with the marker \<open>[Translation failed]\<close>, and its \<open>.then\<close> writes the marker
  into every entry carrying that turn's id and leaves every entry with another id as it
  is. The completion changes neither the status nor the current turn, no further
  request is sent, and the call is no longer pending. With an empty text or without a
  service handle \<open>translateText\<close> sends no request and resolves with the empty string.
\<close>

theorem translation_failure_is_local:
  assumes "i < length (pending s)" and "pending s ! i = (fid, Awaiting p)"
  shows "settle (Awaiting p) Rejects = ''[Translation failed]'' \<and>
         history (settled i Rejects s) =
           map (\<lambda>h. if id_turn h = fid then h\<lparr>translated := ''[Translation failed]''\<rparr> else h)
               (history s) \<and>
         status (settled i Rejects s) = status s \<and>
         currentTurn (settled i Rejects s) = currentTurn s \<and>
         requests (settled i Rejects s) = requests s \<and>
         length (pending (settled i Rejects s)) = length (pending s) - 1 \<and>
         sent (translateText L ai [] src tgt) = [] \<and>
         settle (translateText L ai [] src tgt) out = [] \<and>
         sent (translateText L False tx src tgt) = [] \<and>
         settle (translateText L False tx src tgt) out = []"
  using assms
  by (simp add: settled_def translation_then_def translateText_def)

theorem translation_failure_is_local_witness:
  "status (settled 0 Rejects awaiting_translation) = Idle \<and>
   history (settled 0 Rejects awaiting_translation) =
     [\<lparr>id_turn = 100, original = ''hola'', translated = ''[Translation failed]'',
       isFinal = True\<rparr>] \<and>
   requests (settled 0 Rejects awaiting_translation) = requests awaiting_translation"
proof -
  have i: "0 < length (pending awaiting_translation)"
    by (simp add: awaiting_translation_def handler_defs)
  have p: "pending awaiting_translation ! 0 =
      (100, Awaiting (''Translate the following text from the source language''
                      @ '' to the target language: '' @ [CHR 0x22] @ ''hola'' @ [CHR 0x22]))"
    by (simp add: awaiting_translation_def handler_defs)
  have h: "status awaiting_translation = Idle"
          "history awaiting_translation =
             [\<lparr>id_turn = 100, original = ''hola'', translated = [], isFinal = True\<rparr>]"
    by (simp_all add: awaiting_translation_def handler_defs)
  from translation_failure_is_local [OF i p] h show ?thesis by simp
qed

subsection \<open>C10: start discards the transcript\<close>


end
